theory Spec2Isabelle
  imports Complex_Main "HOL-Library.AList" "HOL-Library.Sublist" "HOL-Library.Multiset"
begin

section \<open>The intent pipeline of \<^verbatim>\<open>src/index.ts\<close>\<close>

text \<open>
  The embedding follows \<^verbatim>\<open>src/src/index.ts\<close>. JavaScript objects are association
  lists in property order, \<^verbatim>\<open>null\<close> and \<^verbatim>\<open>undefined\<close> are kept apart, every
  \<^verbatim>\<open>throw\<close> and every rejected promise is a value of type \<open>error\<close>, and the
  in-place mutation of the user record is explicit state passing. Console logging
  (\<^verbatim>\<open>debugOn\<close>) has no effect on any result and is left out.
\<close>

subsection \<open>JavaScript values and errors\<close>

text \<open>
  Numbers are the finite ones only (\<^verbatim>\<open>NaN\<close> and the infinities are not modelled); on
  finite doubles the test \<^verbatim>\<open>value > 0.6\<close> agrees with the comparison of reals.
\<close>

datatype jsval =
    JUndefined
  | JNull
  | JBool bool
  | JNum real
  | JStr string
  | JArr "jsval list"
  | JObj "(string \<times> jsval) list"

type_synonym jsobj = "(string \<times> jsval) list"

datatype error =
    TypeError
  | Failure string

subsection \<open>The lodash and string functions the source calls\<close>

text \<open>
  \<^verbatim>\<open>_.compact\<close> on an array whose entries are objects or \<^verbatim>\<open>null\<close>: the
  \<^verbatim>\<open>null\<close> entries go, the order stays.
\<close>

fun lodash_compact :: "'a option list \<Rightarrow> 'a list" where
  "lodash_compact [] = []"
| "lodash_compact (None # xs) = lodash_compact xs"
| "lodash_compact (Some x # xs) = x # lodash_compact xs"

text \<open>
  \<^verbatim>\<open>_.compact\<close> on an array of strings and \<^verbatim>\<open>null\<close>: the empty string is falsy
  and goes as well.
\<close>

fun compactStrings :: "string option list \<Rightarrow> string list" where
  "compactStrings [] = []"
| "compactStrings (None # xs) = compactStrings xs"
| "compactStrings (Some s # xs) = (if s = [] then compactStrings xs else s # compactStrings xs)"

text \<open>
  The test that \<^verbatim>\<open>_.defaults\<close> makes on \<^verbatim>\<open>value = object[key]\<close>:
  \<^verbatim>\<open>value === undefined || (eq(value, objectProto[key]) && !hasOwnProperty.call(object, key))\<close>.
  An association list holds the own properties of a plain object. An own property
  passes the test when it holds \<^verbatim>\<open>undefined\<close>. A missing key reads as
  \<^verbatim>\<open>undefined\<close>, or as the method that \<^verbatim>\<open>Object.prototype\<close> has under that name, and
  passes in both cases; the one exception is \<^verbatim>\<open>__proto__\<close>, which reads as
  \<^verbatim>\<open>Object.prototype\<close> itself, not \<^verbatim>\<open>undefined\<close> and not equal to
  \<^verbatim>\<open>Object.prototype.__proto__\<close>, which is \<^verbatim>\<open>null\<close>.
\<close>

definition resolvesToUndefined :: "jsobj \<Rightarrow> string \<Rightarrow> bool" where
  "resolvesToUndefined object key =
     (case map_of object key of
        None \<Rightarrow> key \<noteq> ''__proto__''
      | Some v \<Rightarrow> v = JUndefined)"

text \<open>
  One step of \<^verbatim>\<open>_.defaults\<close>: \<^verbatim>\<open>object[key]\<close> is assigned \<^verbatim>\<open>source[key]\<close> when it
  passes the test. An assignment keeps the place of an existing key and appends a new
  one, as \<open>AList.update\<close> does: the list is in the order of insertion, which is the
  order in which JavaScript lists the keys except for a new integer-like key, listed
  before the others there. Objects are read by key in all that follows.
\<close>

definition sourceValue :: "jsobj \<Rightarrow> string \<Rightarrow> jsval" where
  "sourceValue source key = (case map_of source key of None \<Rightarrow> JUndefined | Some v \<Rightarrow> v)"

definition assignInDefaults :: "jsobj \<Rightarrow> jsobj \<Rightarrow> string \<Rightarrow> jsobj" where
  "assignInDefaults source object key =
     (if resolvesToUndefined object key
      then AList.update key (sourceValue source key) object
      else object)"

text \<open>
  \<^verbatim>\<open>_.defaults(object, ...sources)\<close>: the sources are visited from left to right, each
  one's keys in property order; a source that is \<^verbatim>\<open>null\<close> or \<^verbatim>\<open>undefined\<close>
  (\<open>None\<close>) has no keys. The sources are plain objects; arrays, strings and other
  non-object sources are outside the model.
\<close>

definition defaultsFrom :: "jsobj \<Rightarrow> jsobj option \<Rightarrow> jsobj" where
  "defaultsFrom object source =
     (case source of
        None \<Rightarrow> object
      | Some s \<Rightarrow> foldl (assignInDefaults s) object (map fst s))"

definition lodash_defaults :: "jsobj \<Rightarrow> jsobj option list \<Rightarrow> jsobj" where
  "lodash_defaults object sources = foldl defaultsFrom object sources"

text \<open>
  \<^verbatim>\<open>_.defaults.apply(this, args)\<close>: the first argument is the destination, made an
  object by \<^verbatim>\<open>Object(...)\<close> (a fresh \<^verbatim>\<open>{}\<close> when it is \<^verbatim>\<open>undefined\<close>); with no
  argument at all the destination is \<^verbatim>\<open>{}\<close> too.
\<close>

fun lodash_defaults_apply :: "jsobj option list \<Rightarrow> jsobj" where
  "lodash_defaults_apply [] = []"
| "lodash_defaults_apply (None # sources) = lodash_defaults [] sources"
| "lodash_defaults_apply (Some object # sources) = lodash_defaults object sources"

text \<open>
  \<^verbatim>\<open>String.prototype.replace\<close> with a string pattern: only the first occurrence
  of the pattern is replaced. (The replacement the source passes, a space, has none
  of the \<^verbatim>\<open>$\<close> patterns.)
\<close>

fun js_replace :: "string \<Rightarrow> string \<Rightarrow> string \<Rightarrow> string" where
  "js_replace pat rep [] = (if pat = [] then rep else [])"
| "js_replace pat rep (c # cs) =
     (if prefix pat (c # cs) then rep @ drop (length pat) (c # cs)
      else c # js_replace pat rep cs)"

text \<open>
  \<^verbatim>\<open>_.orderBy(xs, ['value'], 'desc')\<close>: descending by the key, and stable (lodash
  breaks ties by the original index).
\<close>

definition orderBy_desc :: "('a \<Rightarrow> real) \<Rightarrow> 'a list \<Rightarrow> 'a list" where
  "orderBy_desc key xs = sort_key (\<lambda>x. - key x) xs"

text \<open>A callback mapped over a collection: the first \<^verbatim>\<open>throw\<close> ends the map.\<close>

fun traverse :: "('a \<Rightarrow> error + 'b) \<Rightarrow> 'a list \<Rightarrow> error + 'b list" where
  "traverse f [] = Inr []"
| "traverse f (x # xs) =
     (case f x of
        Inl e \<Rightarrow> Inl e
      | Inr y \<Rightarrow> (case traverse f xs of Inl e \<Rightarrow> Inl e | Inr ys \<Rightarrow> Inr (y # ys)))"

subsection \<open>Data model\<close>

text \<open>
  \<^verbatim>\<open>interface Intent { action: string; topic: string; details?: any }\<close>. The strings
  may be \<^verbatim>\<open>null\<close> (\<open>None\<close>); \<open>details\<close> is an object or missing (\<open>None\<close>).
\<close>

record Intent =
  action :: "string option"
  topic :: "string option"
  details :: "jsobj option"

text \<open>
  \<^verbatim>\<open>interface User { conversation?: Array<string>; state: any; intent: Intent }\<close>;
  the extension part of the record stands for the further fields of
  \<^verbatim>\<open>U extends User\<close>.
\<close>

record User =
  conversation :: "string list option"
  state :: jsval
  intent :: Intent

text \<open>
  \<^verbatim>\<open>interface Classification { label; topic; value }\<close>, with the fields \<open>topic\<close> and
  \<open>value\<close> renamed (\<open>topic\<close> is a field of \<open>Intent\<close>, \<open>value\<close> a keyword).
\<close>

record Classification =
  label :: string
  ctopic :: string
  cvalue :: real

text \<open>
  A trained classifier is its \<^verbatim>\<open>getClassifications(text)\<close>: the list of
  \<^verbatim>\<open>{label, value}\<close> results, best first. \<^verbatim>\<open>this.classifiers\<close> maps a topic to the
  classifiers of its labels; both levels are association lists in the order in which
  \<^verbatim>\<open>_.map\<close> visits the keys.
\<close>

type_synonym Classifier = "string \<Rightarrow> (string \<times> real) list"
type_synonym Classifiers = "(string \<times> (string \<times> Classifier) list) list"

text \<open>
  What an intent function hands back: \<^verbatim>\<open>null\<close>, one intent, or an array of intents
  (with possibly \<^verbatim>\<open>null\<close> entries). \<^verbatim>\<open>_.flatten\<close> opens the arrays by one level.
\<close>

datatype extracted =
    ENull
  | EOne Intent
  | EMany "Intent option list"

fun flatten1 :: "extracted \<Rightarrow> Intent option list" where
  "flatten1 ENull = [None]"
| "flatten1 (EOne i) = [Some i]"
| "flatten1 (EMany xs) = xs"

definition flatten :: "extracted list \<Rightarrow> Intent option list" where
  "flatten results = concat (map flatten1 results)"

text \<open>
  What the call of a skill returns: \<^verbatim>\<open>null\<close>, \<^verbatim>\<open>undefined\<close>, a value or promise
  that settles normally, a promise that rejects, or a promise that never settles. A
  skill that throws returns \<open>Inl\<close>. A skill may change the user it is given, by
  replacing its fields or by writing into them.
\<close>

datatype skill_result =
    Null
  | Undefined
  | Resolved
  | Rejected error
  | Pending

text \<open>
  What becomes of an asynchronous call: its promise is fulfilled with a value, it
  fails (the call throws or the promise rejects), or the promise never settles.
\<close>

datatype 'a promise =
    Fulfilled 'a
  | Failed error
  | NeverSettles

text \<open>
  The functions registered on a bot are bound to it (\<^verbatim>\<open>bind(this)\<close>); an intent
  function is given the classifiers of the bot at the time of the call. Intent
  functions and reducers read the user and do not change it.
\<close>

type_synonym 'u IntentFunction = "Classifiers \<Rightarrow> string \<Rightarrow> 'u \<Rightarrow> extracted promise"
type_synonym 'u SkillFunction = "'u \<Rightarrow> (error + skill_result) \<times> 'u"
type_synonym 'u ReducerFunction = "Intent option list \<Rightarrow> 'u \<Rightarrow> Intent promise"

record 'u ChatBot =
  classifiers :: Classifiers
  intents :: "'u IntentFunction list"
  skills :: "'u SkillFunction list"
  reducer :: "'u ReducerFunction"
  debugOn :: bool

text \<open>
  A classifier source is a path or an inline topic collection; \<^verbatim>\<open>TopicCollection\<close>
  and \<^verbatim>\<open>GenerateClassifier\<close> live in \<^verbatim>\<open>./classifier\<close>, which is not part of the
  sources at hand: the former is a type parameter, the latter a parameter of the
  functions that call it.
\<close>

datatype 'tc source =
    Path string
  | Inline 'tc

definition defaultClassifierDirectories :: "string \<Rightarrow> 'tc source list" where
  "defaultClassifierDirectories dirname = [Path (dirname @ ''/../nlp/phrases'')]"

subsection \<open>The built-in extractor\<close>

definition checkUsingClassifier ::
  "string \<Rightarrow> Classifier \<Rightarrow> string \<Rightarrow> string \<Rightarrow> error + Classification option" where
  "checkUsingClassifier text classifier lbl tpc =
     (case classifier text of
        [] \<Rightarrow> Inl TypeError
      | result # _ \<Rightarrow>
          if fst result = ''false'' then Inr None
          else Inr (Some \<lparr>label = js_replace ''-'' '' '' lbl, ctopic = tpc, cvalue = snd result\<rparr>))"

text \<open>
  The first half of \<^verbatim>\<open>baseBotTextNLP\<close>: every classifier of every topic is asked,
  the \<^verbatim>\<open>null\<close> answers are dropped, the rest is flattened into one list.
\<close>

definition collectClassifications :: "Classifiers \<Rightarrow> string \<Rightarrow> error + Classification list" where
  "collectClassifications cls text =
     (case traverse
             (\<lambda>(tpc, classifiers_of_topic).
                case traverse (\<lambda>(lbl, classifier). checkUsingClassifier text classifier lbl tpc)
                       classifiers_of_topic of
                  Inl e \<Rightarrow> Inl e
                | Inr trueClassifications \<Rightarrow> Inr (lodash_compact trueClassifications))
             cls of
        Inl e \<Rightarrow> Inl e
      | Inr filtered \<Rightarrow> Inr (concat filtered))"

text \<open>
  The second half. \<open>isLogisticRegression\<close> is the test
  \<^verbatim>\<open>classifier === natural.LogisticRegressionClassifier\<close> on the constant imported
  from \<^verbatim>\<open>./classifier\<close>; \<open>startCase\<close> is lodash's \<^verbatim>\<open>_.startCase\<close>. The result
  \<open>None\<close> is \<^verbatim>\<open>null\<close>.
\<close>

definition locationsOf :: "(string \<Rightarrow> string) \<Rightarrow> Classification list \<Rightarrow> string list" where
  "locationsOf startCase sortedList =
     compactStrings
       (map (\<lambda>c. if ctopic c = ''locations'' then Some (startCase (label c)) else None) sortedList)"

definition toIntent :: "string list \<Rightarrow> Classification \<Rightarrow> Intent" where
  "toIntent locations c =
     (let baseDetails = [(''confidence'', JNum (cvalue c)),
                         (''locations'', JArr (map JStr locations))]
      in \<lparr>action = Some (label c),
          topic = Some (ctopic c),
          details = Some (if ctopic c = ''locations''
                          then AList.update ''locations'' (JArr (map JStr locations)) baseDetails
                          else baseDetails)\<rparr>)"

definition rankClassifications ::
  "bool \<Rightarrow> (string \<Rightarrow> string) \<Rightarrow> Classification list \<Rightarrow> Intent list option" where
  "rankClassifications isLogisticRegression startCase collected =
     (let compacted = (if isLogisticRegression
                       then filter (\<lambda>result. cvalue result > 0.6) collected
                       else collected)
      in if compacted = [] then None
         else let sortedList = orderBy_desc cvalue compacted;
                  locations = locationsOf startCase sortedList
              in Some (map (toIntent locations) sortedList))"

definition baseBotTextNLP ::
  "bool \<Rightarrow> (string \<Rightarrow> string) \<Rightarrow> Classifiers \<Rightarrow> string \<Rightarrow> error + Intent list option" where
  "baseBotTextNLP isLogisticRegression startCase cls text =
     (case collectClassifications cls text of
        Inl e \<Rightarrow> Inl e
      | Inr collected \<Rightarrow> Inr (rankClassifications isLogisticRegression startCase collected))"

text \<open>The extractor as it is registered on a bot.\<close>

definition baseBotIntentFunction :: "bool \<Rightarrow> (string \<Rightarrow> string) \<Rightarrow> 'u IntentFunction" where
  "baseBotIntentFunction isLogisticRegression startCase cls text user =
     (case baseBotTextNLP isLogisticRegression startCase cls text of
        Inl e \<Rightarrow> Failed e
      | Inr None \<Rightarrow> Fulfilled ENull
      | Inr (Some is) \<Rightarrow> Fulfilled (EMany (map Some is)))"

subsection \<open>The default reducer\<close>

definition unknownIntent :: Intent where
  "unknownIntent = \<lparr>action = Some ''none'', topic = None, details = None\<rparr>"

definition defaultReducer :: "Intent option list \<Rightarrow> Intent" where
  "defaultReducer candidates =
     (case lodash_compact candidates of
        [] \<Rightarrow> unknownIntent
      | firstIntent # others \<Rightarrow>
          firstIntent\<lparr>details :=
            Some (lodash_defaults_apply (map details (firstIntent # others)))\<rparr>)"

definition defaultReducerFunction :: "'u ReducerFunction" where
  "defaultReducerFunction candidates user = Fulfilled (defaultReducer candidates)"

subsection \<open>The ChatBot class\<close>

definition ChatBot_new ::
  "('tc source list \<Rightarrow> error + Classifiers) \<Rightarrow> string \<Rightarrow> bool \<Rightarrow> (string \<Rightarrow> string) \<Rightarrow>
   'u IntentFunction \<Rightarrow> 'tc source list \<Rightarrow> error + 'u ChatBot" where
  "ChatBot_new GenerateClassifier dirname isLogisticRegression startCase grabTopics classifierFiles =
     (case GenerateClassifier (classifierFiles @ defaultClassifierDirectories dirname) of
        Inl e \<Rightarrow> Inl e
      | Inr allClassifiers \<Rightarrow>
          Inr \<lparr>classifiers = allClassifiers,
               intents = [baseBotIntentFunction isLogisticRegression startCase, grabTopics],
               skills = [],
               reducer = defaultReducerFunction,
               debugOn = False\<rparr>)"

definition unshiftIntent :: "'u IntentFunction \<Rightarrow> 'u ChatBot \<Rightarrow> 'u ChatBot" where
  "unshiftIntent newIntent chatbot = chatbot\<lparr>intents := [newIntent] @ intents chatbot\<rparr>"


definition setReducer :: "'u ReducerFunction \<Rightarrow> 'u ChatBot \<Rightarrow> 'u ChatBot" where
  "setReducer newReducer chatbot = chatbot\<lparr>reducer := newReducer\<rparr>"

definition turnOnDebug :: "'u ChatBot \<Rightarrow> 'u ChatBot" where
  "turnOnDebug chatbot = chatbot\<lparr>debugOn := True\<rparr>"

text \<open>
  \<^verbatim>\<open>retrainClassifiers\<close> returns nothing; the result pairs what the call does (it
  throws when \<^verbatim>\<open>GenerateClassifier\<close> throws, before the assignment) with the bot
  afterwards.
\<close>

definition retrainClassifiers ::
  "('tc source list \<Rightarrow> error + Classifiers) \<Rightarrow> string \<Rightarrow> 'tc source list \<Rightarrow> 'u ChatBot \<Rightarrow>
   (error + unit) \<times> 'u ChatBot" where
  "retrainClassifiers GenerateClassifier dirname classifierFiles chatbot =
     (case GenerateClassifier (classifierFiles @ defaultClassifierDirectories dirname) of
        Inl e \<Rightarrow> (Inl e, chatbot)
      | Inr allClassifiers \<Rightarrow> (Inr (), chatbot\<lparr>classifiers := allClassifiers\<rparr>))"

definition createEmptyIntent :: Intent where
  "createEmptyIntent = \<lparr>action = None, topic = None, details = Some []\<rparr>"

text \<open>An intent as the JavaScript object it is, for \<^verbatim>\<open>createEmptyUser\<close>.\<close>

definition stringOrNull :: "string option \<Rightarrow> jsval" where
  "stringOrNull s = (case s of None \<Rightarrow> JNull | Some str \<Rightarrow> JStr str)"

definition intentObject :: "Intent \<Rightarrow> jsval" where
  "intentObject i =
     JObj ([(''action'', stringOrNull (action i))]
           @ (case details i of None \<Rightarrow> [] | Some d \<Rightarrow> [(''details'', JObj d)])
           @ [(''topic'', stringOrNull (topic i))])"

definition anEmptyUser :: jsobj where
  "anEmptyUser = [(''conversation'', JArr []),
                  (''intent'', intentObject createEmptyIntent),
                  (''state'', JStr ''none'')]"

text \<open>
  \<^verbatim>\<open>createEmptyUser(defaults: any = {})\<close>: \<open>None\<close> is the omitted argument, replaced
  by \<^verbatim>\<open>{}\<close>. The result is an object, which the source casts to \<^verbatim>\<open>User\<close>.
\<close>

definition createEmptyUser :: "jsobj option \<Rightarrow> jsobj" where
  "createEmptyUser defaults =
     lodash_defaults anEmptyUser [Some (case defaults of None \<Rightarrow> [] | Some d \<Rightarrow> d)]"

text \<open>
  The loop over \<^verbatim>\<open>this.skills\<close> in \<^verbatim>\<open>processText\<close>, from index \<open>i\<close> on. Beside what
  the loop returns and the user it leaves, the result lists the calls made: the index
  of each skill called and what the call gave.
\<close>

function skillLoop ::
  "'u SkillFunction list \<Rightarrow> nat \<Rightarrow> 'u \<Rightarrow>
   (nat \<times> (error + skill_result)) list \<times> (error + skill_result) \<times> 'u" where
  "skillLoop sks i user =
     (if i < length sks then
        (case (sks ! i) user of
           (Inl e, user') \<Rightarrow> ([(i, Inl e)], Inl e, user')
         | (Inr result, user') \<Rightarrow>
             if result \<noteq> Null then ([(i, Inr result)], Inr result, user')
             else (case skillLoop sks (Suc i) user' of
                     (calls, returned, user'') \<Rightarrow> ((i, Inr result) # calls, returned, user'')))
      else ([], Inr Null, user))"
  by pat_completeness auto
termination
  by (relation "measure (\<lambda>(sks, i, user). length sks - i)") auto

text \<open>
  The calls that the loop makes, from index \<open>i\<close> on, each with the user before the
  call, what the call gave, and the user after it.
\<close>

function skillCalls ::
  "'u SkillFunction list \<Rightarrow> nat \<Rightarrow> 'u \<Rightarrow> ('u \<times> (error + skill_result) \<times> 'u) list" where
  "skillCalls sks i user =
     (if i < length sks then
        (case (sks ! i) user of
           (outcome, user') \<Rightarrow>
             (user, outcome, user') #
             (if outcome = Inr Null then skillCalls sks (Suc i) user' else []))
      else [])"
  by pat_completeness auto
termination
  by (relation "measure (\<lambda>(sks, i, user). length sks - i)") auto

declare skillCalls.simps [simp del]

text \<open>
  \<^verbatim>\<open>Promise.map\<close> over the intent functions: every function is called; the result
  rejects when one of the calls fails, with the failure that comes first in time,
  stays pending when none fails and one never settles, and is fulfilled with all the
  values in array order otherwise. Which failure comes first is not fixed by the
  source: \<open>firstInTime\<close> picks it among the failures (a pick that is not one of
  them counts as the first of the array).
\<close>

fun failuresOf :: "'a promise list \<Rightarrow> error list" where
  "failuresOf [] = []"
| "failuresOf (Failed e # ps) = e # failuresOf ps"
| "failuresOf (p # ps) = failuresOf ps"

fun valuesOf :: "'a promise list \<Rightarrow> 'a list" where
  "valuesOf [] = []"
| "valuesOf (Fulfilled x # ps) = x # valuesOf ps"
| "valuesOf (p # ps) = valuesOf ps"

fun somePending :: "'a promise list \<Rightarrow> bool" where
  "somePending [] = False"
| "somePending (NeverSettles # ps) = True"
| "somePending (p # ps) = somePending ps"

definition promiseMap :: "(error list \<Rightarrow> error) \<Rightarrow> 'a promise list \<Rightarrow> 'a list promise" where
  "promiseMap firstInTime outcomes =
     (case failuresOf outcomes of
        e # es \<Rightarrow> Failed (if List.member (e # es) (firstInTime (e # es))
                          then firstInTime (e # es) else e)
      | [] \<Rightarrow> if somePending outcomes then NeverSettles else Fulfilled (valuesOf outcomes))"

text \<open>
  \<^verbatim>\<open>processText\<close>. The promise it returns is fulfilled with the user, or fails: when
  an intent function or the reducer fails, when a skill throws, or when the promise
  returned from the loop rejects. It never settles when the intent functions, the
  reducer or the promise returned from the loop never settle.
\<close>

definition processText ::
  "(error list \<Rightarrow> error) \<Rightarrow> ('a User_scheme) ChatBot \<Rightarrow> 'a User_scheme \<Rightarrow> string \<Rightarrow>
   ('a User_scheme) promise" where
  "processText firstInTime chatbot user text =
     (let user1 = user\<lparr>conversation :=
                    Some ((case conversation user of None \<Rightarrow> [] | Some c \<Rightarrow> c) @ [text])\<rparr>
      in case promiseMap firstInTime
                (map (\<lambda>intentFunction. intentFunction (classifiers chatbot) text user1)
                   (intents chatbot)) of
           Failed e \<Rightarrow> Failed e
         | NeverSettles \<Rightarrow> NeverSettles
         | Fulfilled results \<Rightarrow>
             (case reducer chatbot (map Some (lodash_compact (flatten results))) user1 of
                Failed e \<Rightarrow> Failed e
              | NeverSettles \<Rightarrow> NeverSettles
              | Fulfilled decided \<Rightarrow>
                  (case skillLoop (skills chatbot) 0 (user1\<lparr>intent := decided\<rparr>) of
                     (calls, Inl e, user3) \<Rightarrow> Failed e
                   | (calls, Inr (Rejected e), user3) \<Rightarrow> Failed e
                   | (calls, Inr Pending, user3) \<Rightarrow> NeverSettles
                   | (calls, Inr _, user3) \<Rightarrow> Fulfilled user3)))"

subsection \<open>Notions used in the statements\<close>

text \<open>
  An object gives no value for a key: it has no own property of that name, or one
  that holds \<^verbatim>\<open>undefined\<close>.
\<close>

definition givesNoValue :: "jsobj \<Rightarrow> string \<Rightarrow> bool" where
  "givesNoValue object key =
     (case map_of object key of None \<Rightarrow> True | Some v \<Rightarrow> v = JUndefined)"

definition sourceGivesNoValue :: "jsobj option \<Rightarrow> string \<Rightarrow> bool" where
  "sourceGivesNoValue source key =
     (case source of None \<Rightarrow> True | Some s \<Rightarrow> givesNoValue s key)"

text \<open>A call of a skill that settles normally: it does not throw, reject or stay pending.\<close>

definition settlesNormally :: "error + skill_result \<Rightarrow> bool" where
  "settlesNormally outcome =
     (outcome = Inr Null \<or> outcome = Inr Undefined \<or> outcome = Inr Resolved)"

text \<open>The details of an intent as an object: \<^verbatim>\<open>{}\<close> when the field is missing.\<close>

definition detailsObject :: "Intent \<Rightarrow> jsobj" where
  "detailsObject i = (case details i of None \<Rightarrow> [] | Some d \<Rightarrow> d)"

text \<open>The classifications that are left when the confidence floor has been applied.\<close>

definition survivors :: "bool \<Rightarrow> Classification list \<Rightarrow> Classification list" where
  "survivors isLogisticRegression collected =
     (if isLogisticRegression then filter (\<lambda>c. cvalue c > 0.6) collected else collected)"

subsection \<open>Example data\<close>

text \<open>
  A bank of four classifiers: for any text the first three say \<^verbatim>\<open>true\<close>,
  \<^verbatim>\<open>false\<close> and \<^verbatim>\<open>true\<close>, the last one \<^verbatim>\<open>true\<close> with the low confidence 0.5.
\<close>

definition demoClassifiers :: Classifiers where
  "demoClassifiers =
     [(''weather'',
         [(''rain-forecast'', \<lambda>text. [(''true'', 0.7), (''false'', 0.3)]),
          (''snow'', \<lambda>text. [(''false'', 0.8), (''true'', 0.2)])]),
      (''locations'',
         [(''new-york'', \<lambda>text. [(''true'', 0.9), (''false'', 0.1)]),
          (''paris'', \<lambda>text. [(''true'', 0.5), (''false'', 0.5)])])]"

definition quietClassifiers :: Classifiers where
  "quietClassifiers = [(''weather'', [(''snow'', \<lambda>text. [(''false'', 0.8), (''true'', 0.2)])])]"

definition lowClassifiers :: Classifiers where
  "lowClassifiers = [(''locations'', [(''paris'', \<lambda>text. [(''true'', 0.5), (''false'', 0.5)])])]"

definition hyphenClassifiers :: Classifiers where
  "hyphenClassifiers = [(''travel'', [(''new-york-city'', \<lambda>text. [(''true'', 0.9), (''false'', 0.1)])])]"

text \<open>A location whose label is a lone hyphen, which \<^verbatim>\<open>replace\<close> turns into a space.\<close>

definition separatorClassifiers :: Classifiers where
  "separatorClassifiers = [(''locations'', [(''-'', \<lambda>text. [(''true'', 0.9), (''false'', 0.1)])])]"

text \<open>
  The values of \<^verbatim>\<open>_.startCase\<close> at the labels of the examples; a string without
  any word, such as a single space, gives the empty string.
\<close>

definition demoStartCase :: "string \<Rightarrow> string" where
  "demoStartCase s =
     (if s = ''new york'' then ''New York''
      else if s = ''paris'' then ''Paris''
      else if s = ''rain forecast'' then ''Rain Forecast''
      else if s = '' '' then []
      else s)"

definition demoCollected :: "Classification list" where
  "demoCollected =
     [\<lparr>label = ''rain forecast'', ctopic = ''weather'', cvalue = 0.7\<rparr>,
      \<lparr>label = ''new york'', ctopic = ''locations'', cvalue = 0.9\<rparr>,
      \<lparr>label = ''paris'', ctopic = ''locations'', cvalue = 0.5\<rparr>]"

definition demoProduced :: "Intent list" where
  "demoProduced =
     [\<lparr>action = Some ''new york'', topic = Some ''locations'',
       details = Some [(''confidence'', JNum 0.9),
                       (''locations'', JArr [JStr ''New York'', JStr ''Paris''])]\<rparr>,
      \<lparr>action = Some ''rain forecast'', topic = Some ''weather'',
       details = Some [(''confidence'', JNum 0.7),
                       (''locations'', JArr [JStr ''New York'', JStr ''Paris''])]\<rparr>,
      \<lparr>action = Some ''paris'', topic = Some ''locations'',
       details = Some [(''confidence'', JNum 0.5),
                       (''locations'', JArr [JStr ''New York'', JStr ''Paris''])]\<rparr>]"

definition demoUser :: User where
  "demoUser = \<lparr>conversation = None, state = JNull, intent = createEmptyIntent\<rparr>"

definition skillDeclines :: "User SkillFunction" where
  "skillDeclines user = (Inr Null, user\<lparr>state := JStr ''declined''\<rparr>)"

definition skillAnswers :: "User SkillFunction" where
  "skillAnswers user = (Inr Resolved, user)"

definition skillFails :: "User SkillFunction" where
  "skillFails user = (Inl (Failure ''skill failed''), user)"

definition skillHangs :: "User SkillFunction" where
  "skillHangs user = (Inr Pending, user)"

text \<open>A skill that acts on some users only: it greets a user whose state is \<^verbatim>\<open>'vip'\<close>.\<close>

definition skillWhenVip :: "User SkillFunction" where
  "skillWhenVip user =
     (if state user = JStr ''vip''
      then (Inr Resolved,
            user\<lparr>intent := \<lparr>action = Some ''greet'', topic = Some ''smalltalk'', details = Some []\<rparr>\<rparr>)
      else (Inr Null, user))"

definition skillGreets :: "User SkillFunction" where
  "skillGreets user =
     (Inr Resolved,
      user\<lparr>intent := \<lparr>action = Some ''greet'', topic = Some ''smalltalk'', details = Some []\<rparr>\<rparr>)"

definition skillAnnotates :: "User SkillFunction" where
  "skillAnnotates user =
     (Inr Null, user\<lparr>intent := (intent user)\<lparr>details := Some [(''handled'', JBool True)]\<rparr>\<rparr>)"

definition quietBot :: "User SkillFunction list \<Rightarrow> User ChatBot" where
  "quietBot sks =
     \<lparr>classifiers = quietClassifiers,
      intents = [baseBotIntentFunction True demoStartCase],
      skills = sks,
      reducer = defaultReducerFunction,
      debugOn = False\<rparr>"

definition demoGreeting :: Intent where
  "demoGreeting =
     \<lparr>action = Some ''greet'', topic = Some ''smalltalk'',
      details = Some [(''confidence'', JNum 0.7), (''note'', JUndefined)]\<rparr>"

definition demoPlace :: Intent where
  "demoPlace =
     \<lparr>action = Some ''new york'', topic = Some ''locations'',
      details = Some [(''confidence'', JNum 0.9), (''note'', JUndefined),
                      (''locations'', JArr [JStr ''New York''])]\<rparr>"

text \<open>Details with an own property \<^verbatim>\<open>__proto__\<close>, as \<^verbatim>\<open>JSON.parse\<close> makes them.\<close>

definition demoParsed :: Intent where
  "demoParsed =
     \<lparr>action = Some ''parsed'', topic = Some ''import'',
      details = Some [(''__proto__'', JStr ''p''), (''y'', JStr ''z'')]\<rparr>"

definition demoNote :: Intent where
  "demoNote =
     \<lparr>action = Some ''paris'', topic = Some ''locations'',
      details = Some [(''note'', JStr ''x''), (''locations'', JArr [JStr ''Paris''])]\<rparr>"

section \<open>Properties\<close>

subsection \<open>How \<^verbatim>\<open>_.defaults\<close> resolves a key\<close>

lemma assignInDefaults_lookup:
  "map_of (assignInDefaults s ob k) k' =
     (if k' = k \<and> resolvesToUndefined ob k
      then Some (sourceValue s k) else map_of ob k')"
  by (simp add: assignInDefaults_def AList.update_conv')

lemma foldl_assignInDefaults_lookup:
  "map_of (foldl (assignInDefaults s) ob ks) k' =
     (if k' \<in> set ks \<and> resolvesToUndefined ob k'
      then Some (sourceValue s k') else map_of ob k')"
  by (induction ks arbitrary: ob)
     (auto simp: assignInDefaults_lookup resolvesToUndefined_def split: option.splits)

lemma defaultsFrom_lookup:
  "map_of (defaultsFrom ob (Some s)) k =
     (if resolvesToUndefined ob k
      then (case map_of s k of None \<Rightarrow> map_of ob k | Some v \<Rightarrow> Some v)
      else map_of ob k)"
proof -
  have "k \<in> set (map fst s) \<longleftrightarrow> map_of s k \<noteq> None"
    by (simp add: map_of_eq_None_iff)
  then show ?thesis
    by (auto simp: defaultsFrom_def foldl_assignInDefaults_lookup sourceValue_def
        simp del: set_map split: option.splits)
qed

lemma defaultsFrom_None: "defaultsFrom ob None = ob"
  by (simp add: defaultsFrom_def)

lemma lodash_defaults_keeps:
  "map_of ob k = Some v \<Longrightarrow> v \<noteq> JUndefined \<Longrightarrow> map_of (lodash_defaults ob sources) k = Some v"
  unfolding lodash_defaults_def
proof (induction sources arbitrary: ob)
  case Nil
  then show ?case by simp
next
  case (Cons s sources)
  then show ?case
    by (cases s) (simp_all add: defaultsFrom_lookup defaultsFrom_None resolvesToUndefined_def)
qed

lemma defaultsFrom_still_undefined:
  "resolvesToUndefined ob k \<Longrightarrow> sourceGivesNoValue src k \<Longrightarrow>
   resolvesToUndefined (defaultsFrom ob src) k"
  by (cases src)
     (auto simp: defaultsFrom_None sourceGivesNoValue_def givesNoValue_def resolvesToUndefined_def
        defaultsFrom_lookup split: option.splits)

lemma lodash_defaults_still_undefined:
  "resolvesToUndefined ob k \<Longrightarrow> \<forall>p\<in>set pre. sourceGivesNoValue p k \<Longrightarrow>
   resolvesToUndefined (lodash_defaults ob pre) k"
  unfolding lodash_defaults_def
  by (induction pre arbitrary: ob) (simp_all add: defaultsFrom_still_undefined)

lemma lodash_defaults_first_seen:
  assumes "resolvesToUndefined ob k"
    and "\<forall>p\<in>set pre. sourceGivesNoValue p k"
    and "map_of s k = Some v" and "v \<noteq> JUndefined"
  shows "map_of (lodash_defaults ob (pre @ Some s # post)) k = Some v"
proof -
  have u: "resolvesToUndefined (lodash_defaults ob pre) k"
    using assms(1,2) by (rule lodash_defaults_still_undefined)
  have "map_of (defaultsFrom (lodash_defaults ob pre) (Some s)) k = Some v"
    using u assms(3) by (simp add: defaultsFrom_lookup)
  then have "map_of (lodash_defaults (defaultsFrom (lodash_defaults ob pre) (Some s)) post) k = Some v"
    using assms(4) by (rule lodash_defaults_keeps)
  then show ?thesis
    by (simp add: lodash_defaults_def)
qed

lemma defaultsFrom_no_new_key:
  "map_of ob k = None \<Longrightarrow> (case src of None \<Rightarrow> True | Some s \<Rightarrow> map_of s k = None) \<Longrightarrow>
   map_of (defaultsFrom ob src) k = None"
  by (cases src) (auto simp: defaultsFrom_None defaultsFrom_lookup split: option.splits)

lemma lodash_defaults_no_new_key:
  "map_of ob k = None \<Longrightarrow>
   \<forall>src\<in>set sources. (case src of None \<Rightarrow> True | Some s \<Rightarrow> map_of s k = None) \<Longrightarrow>
   map_of (lodash_defaults ob sources) k = None"
  unfolding lodash_defaults_def
  by (induction sources arbitrary: ob) (simp_all add: defaultsFrom_no_new_key)

lemma lodash_defaults_proto:
  "map_of ob ''__proto__'' = None \<Longrightarrow> map_of (lodash_defaults ob sources) ''__proto__'' = None"
  unfolding lodash_defaults_def
proof (induction sources arbitrary: ob)
  case Nil
  then show ?case by simp
next
  case (Cons s sources)
  then show ?case
    by (cases s) (simp_all add: defaultsFrom_lookup defaultsFrom_None resolvesToUndefined_def)
qed

lemma lodash_defaults_apply_eq:
  "lodash_defaults_apply (details w # sources) = lodash_defaults (detailsObject w) sources"
  by (cases "details w") (simp_all add: detailsObject_def)

subsection \<open>The extractor's sorting and mapping\<close>

lemma toIntent_fields:
  "action (toIntent locations c) = Some (label c)"
  "topic (toIntent locations c) = Some (ctopic c)"
  "\<exists>d. details (toIntent locations c) = Some d \<and>
       map_of d ''confidence'' = Some (JNum (cvalue c)) \<and>
       map_of d ''locations'' = Some (JArr (map JStr locations))"
  by (simp_all add: toIntent_def Let_def)

lemma set_orderBy_desc: "set (orderBy_desc key xs) = set xs"
  by (simp add: orderBy_desc_def)

lemma length_orderBy_desc: "length (orderBy_desc key xs) = length xs"
  by (simp add: orderBy_desc_def)

lemma mset_orderBy_desc: "mset (orderBy_desc key xs) = mset xs"
  by (simp add: orderBy_desc_def)

lemma orderBy_desc_descending: "sorted_wrt (\<lambda>a b. key a \<ge> key b) (orderBy_desc key xs)"
proof -
  have "sorted (map (\<lambda>x. - key x) (orderBy_desc key xs))"
    by (simp add: orderBy_desc_def)
  then show ?thesis
    by (simp add: sorted_map)
qed

lemma orderBy_desc_stable:
  "filter (\<lambda>x. key x = v) (orderBy_desc key xs) = filter (\<lambda>x. key x = v) xs"
  using sort_key_stable [of "\<lambda>x. - key x" "- v" xs] by (simp add: orderBy_desc_def)

lemma compactStrings_eq:
  "compactStrings xs = filter (\<lambda>s. s \<noteq> []) (lodash_compact xs)"
  by (induction xs rule: compactStrings.induct) simp_all

lemma lodash_compact_map_if:
  "lodash_compact (map (\<lambda>c. if P c then Some (f c) else None) xs) = map f (filter P xs)"
  by (induction xs) simp_all

lemma locationsOf_eq:
  "locationsOf startCase sortedList =
     filter (\<lambda>s. s \<noteq> [])
       (map (\<lambda>c. startCase (label c)) (filter (\<lambda>c. ctopic c = ''locations'') sortedList))"
  by (simp add: locationsOf_def compactStrings_eq lodash_compact_map_if)

lemma rankClassifications_eq:
  "rankClassifications isLR startCase collected =
     (if survivors isLR collected = [] then None
      else Some (map (toIntent (locationsOf startCase (orderBy_desc cvalue (survivors isLR collected))))
                   (orderBy_desc cvalue (survivors isLR collected))))"
  by (simp add: rankClassifications_def survivors_def Let_def)

lemma survivors_True_iff:
  "c \<in> set (survivors True collected) \<longleftrightarrow> c \<in> set collected \<and> cvalue c > 0.6"
  by (simp add: survivors_def)

lemma survivors_True_filter:
  "survivors True collected = filter (\<lambda>c. cvalue c > 0.6) collected"
  by (simp add: survivors_def)

lemma rankClassifications_produced:
  assumes "rankClassifications isLR startCase collected = Some produced"
  shows "length produced = length (survivors isLR collected) \<and>
         (\<forall>i\<in>set produced. \<exists>c\<in>set (survivors isLR collected).
            action i = Some (label c) \<and> topic i = Some (ctopic c) \<and>
            (\<exists>d. details i = Some d \<and> map_of d ''confidence'' = Some (JNum (cvalue c))))"
proof -
  let ?sorted = "orderBy_desc cvalue (survivors isLR collected)"
  have p: "produced = map (toIntent (locationsOf startCase ?sorted)) ?sorted"
    using assms unfolding rankClassifications_eq by (simp split: if_splits)
  have "\<exists>c\<in>set (survivors isLR collected).
            action i = Some (label c) \<and> topic i = Some (ctopic c) \<and>
            (\<exists>d. details i = Some d \<and> map_of d ''confidence'' = Some (JNum (cvalue c)))"
    if "i \<in> set produced" for i
  proof -
    from that p obtain c where c: "c \<in> set ?sorted" "i = toIntent (locationsOf startCase ?sorted) c"
      by auto
    from c(1) have "c \<in> set (survivors isLR collected)"
      by (simp only: set_orderBy_desc)
    then show ?thesis
      using toIntent_fields [of "locationsOf startCase ?sorted" c] c(2) by blast
  qed
  then show ?thesis
    by (simp add: p length_orderBy_desc)
qed

subsection \<open>The loop over the skills\<close>



lemma skillCalls_outcomes:
  "map (\<lambda>(before, outcome, after). outcome) (skillCalls sks i user)
     = map snd (fst (skillLoop sks i user))"
proof (induction sks i user rule: skillCalls.induct)
  case (1 sks i user)
  show ?case
  proof (cases "i < length sks")
    case False
    then show ?thesis
      by (simp add: skillCalls.simps [of sks i user] skillLoop.simps [of sks i user]
          del: skillLoop.simps)
  next
    case True
    obtain outcome u1 where s: "(sks ! i) user = (outcome, u1)" by (cases "(sks ! i) user")
    show ?thesis
    proof (cases "outcome = Inr Null")
      case False
      with True s show ?thesis
        by (cases outcome)
           (simp_all add: skillCalls.simps [of sks i user] skillLoop.simps [of sks i user]
              del: skillLoop.simps)
    next
      case rn: True
      have ih: "map (\<lambda>(before, outcome, after). outcome) (skillCalls sks (Suc i) u1)
                = map snd (fst (skillLoop sks (Suc i) u1))"
        using "1.IH" [OF True s [symmetric] rn] .
      obtain calls1 returned1 user1
        where rec: "skillLoop sks (Suc i) u1 = (calls1, returned1, user1)"
        by (cases "skillLoop sks (Suc i) u1")
      have a: "skillCalls sks i user = (user, Inr Null, u1) # skillCalls sks (Suc i) u1"
        using True s rn by (simp add: skillCalls.simps [of sks i user])
      have b: "skillLoop sks i user = ((i, Inr Null) # calls1, returned1, user1)"
        using True s rn rec by (simp add: skillLoop.simps [of sks i user] del: skillLoop.simps)
      show ?thesis
        unfolding a b using ih rec by simp
    qed
  qed
qed

lemma skillLoop_when_calls_settle:
  assumes "\<forall>(before, outcome, after)\<in>set (skillCalls sks i user).
             settlesNormally outcome \<and> intent after = intent before"
  shows "\<exists>calls r user'. skillLoop sks i user = (calls, Inr r, user') \<and>
           settlesNormally (Inr r) \<and> intent user' = intent user"
  using assms
proof (induction sks i user rule: skillCalls.induct)
  case (1 sks i user)
  show ?case
  proof (cases "i < length sks")
    case False
    then show ?thesis
      by (simp add: settlesNormally_def skillLoop.simps [of sks i user] del: skillLoop.simps)
  next
    case True
    obtain outcome u1 where s: "(sks ! i) user = (outcome, u1)" by (cases "(sks ! i) user")
    have c: "skillCalls sks i user =
               (user, outcome, u1) # (if outcome = Inr Null then skillCalls sks (Suc i) u1 else [])"
      using True s by (simp add: skillCalls.simps [of sks i user])
    have h: "settlesNormally outcome" "intent u1 = intent user"
      using "1.prems" unfolding c by simp_all
    then obtain r where r: "outcome = Inr r" "r = Null \<or> r = Undefined \<or> r = Resolved"
      by (auto simp: settlesNormally_def)
    show ?thesis
    proof (cases "r = Null")
      case False
      with True s r h show ?thesis
        by (auto simp: settlesNormally_def skillLoop.simps [of sks i user] simp del: skillLoop.simps)
    next
      case rn: True
      have t: "\<forall>(before, outcome, after)\<in>set (skillCalls sks (Suc i) u1).
                 settlesNormally outcome \<and> intent after = intent before"
        using "1.prems" r rn unfolding c by simp
      have o: "outcome = Inr Null"
        using r(1) rn by simp
      obtain calls r' user' where rec: "skillLoop sks (Suc i) u1 = (calls, Inr r', user')"
        "settlesNormally (Inr r')" "intent user' = intent u1"
        using "1.IH" [OF True s [symmetric] o t] by auto
      have "skillLoop sks i user = ((i, Inr Null) # calls, Inr r', user')"
        using True s o rec(1) by (simp add: skillLoop.simps [of sks i user] del: skillLoop.simps)
      then show ?thesis
        using rec(2,3) h(2) by simp
    qed
  qed
qed

subsection \<open>A request without candidates\<close>

lemma promiseMap_Fulfilled: "promiseMap firstInTime (map Fulfilled xs) = Fulfilled xs"
proof -
  have "failuresOf (map Fulfilled xs) = []" "\<not> somePending (map Fulfilled xs)"
    "valuesOf (map Fulfilled xs) = xs"
    by (induction xs) simp_all
  then show ?thesis
    by (simp add: promiseMap_def)
qed

lemma processText_no_match:
  fixes chatbot :: "('a User_scheme) ChatBot"
  assumes "reducer chatbot = defaultReducerFunction"
    and "map (\<lambda>intentFunction. intentFunction (classifiers chatbot) text
            (user\<lparr>conversation :=
               Some ((case conversation user of None \<Rightarrow> [] | Some c \<Rightarrow> c) @ [text])\<rparr>))
           (intents chatbot) = map Fulfilled results"
    and "lodash_compact (flatten results) = []"
    and "\<forall>(before, outcome, after)\<in>set (skillCalls (skills chatbot) 0
             (user\<lparr>conversation :=
                Some ((case conversation user of None \<Rightarrow> [] | Some c \<Rightarrow> c) @ [text]),
                intent := unknownIntent\<rparr>)).
           settlesNormally outcome \<and> intent after = intent before"
  shows "\<exists>user'. processText firstInTime chatbot user text = Fulfilled user' \<and>
           intent user' = unknownIntent"
proof -
  let ?user1 = "user\<lparr>conversation :=
                  Some ((case conversation user of None \<Rightarrow> [] | Some c \<Rightarrow> c) @ [text])\<rparr>"
  obtain calls r user'
    where l: "skillLoop (skills chatbot) 0 (?user1\<lparr>intent := unknownIntent\<rparr>) = (calls, Inr r, user')"
      "settlesNormally (Inr r)" "intent user' = intent (?user1\<lparr>intent := unknownIntent\<rparr>)"
    using skillLoop_when_calls_settle [OF assms(4)] by blast
  have "processText firstInTime chatbot user text = Fulfilled user'"
    using assms(1,2,3) l(1,2)
    by (cases r)
       (simp_all add: processText_def Let_def promiseMap_Fulfilled defaultReducerFunction_def
          defaultReducer_def settlesNormally_def)
  then show ?thesis
    using l(3) by simp
qed

lemma quietBot_extraction:
  "map (\<lambda>intentFunction. intentFunction (classifiers (quietBot sks)) ''hello''
        (demoUser\<lparr>conversation :=
           Some ((case conversation demoUser of None \<Rightarrow> [] | Some c \<Rightarrow> c) @ [''hello''])\<rparr>))
      (intents (quietBot sks)) = map Fulfilled [ENull]"
  by (simp add: quietBot_def quietClassifiers_def baseBotIntentFunction_def baseBotTextNLP_def
      collectClassifications_def checkUsingClassifier_def rankClassifications_def)

lemmas extractor_defs =
  baseBotIntentFunction_def baseBotTextNLP_def collectClassifications_def checkUsingClassifier_def
  rankClassifications_def locationsOf_def toIntent_def orderBy_desc_def

lemmas defaults_defs =
  lodash_defaults_def defaultsFrom_def assignInDefaults_def resolvesToUndefined_def sourceValue_def

lemmas example_defs =
  demoClassifiers_def quietClassifiers_def lowClassifiers_def hyphenClassifiers_def
  separatorClassifiers_def
  demoStartCase_def demoUser_def quietBot_def demoGreeting_def demoPlace_def demoNote_def
  demoParsed_def

lemma demo_collected:
  "collectClassifications demoClassifiers text =
     Inr [\<lparr>label = ''rain forecast'', ctopic = ''weather'', cvalue = 0.7\<rparr>,
          \<lparr>label = ''new york'', ctopic = ''locations'', cvalue = 0.9\<rparr>,
          \<lparr>label = ''paris'', ctopic = ''locations'', cvalue = 0.5\<rparr>]"
  by (simp add: extractor_defs example_defs)

lemma low_collected:
  "collectClassifications lowClassifiers text =
     Inr [\<lparr>label = ''paris'', ctopic = ''locations'', cvalue = 0.5\<rparr>]"
  by (simp add: extractor_defs example_defs)

section \<open>The statements of the specification\<close>

subsection \<open>C1: \<^verbatim>\<open>createEmptyUser\<close>\<close>

text \<open>
  C1, as the code has it. \<^verbatim>\<open>createEmptyUser(defaults)\<close> is
  \<^verbatim>\<open>_.defaults(anEmptyUser, defaults)\<close> with the base record as the destination: the
  keys \<^verbatim>\<open>conversation\<close>, \<^verbatim>\<open>intent\<close> and \<^verbatim>\<open>state\<close> always keep their base values
  \<^verbatim>\<open>[]\<close>, the empty intent and \<^verbatim>\<open>'none'\<close>, whatever the caller supplies for them;
  the key \<^verbatim>\<open>__proto__\<close> is never added; and every other key of \<^verbatim>\<open>defaults\<close> is
  added with the caller's value.
\<close>

theorem createEmptyUser_fills_absent_keys:
  "map_of (createEmptyUser (Some defaults)) key =
     (if key = ''conversation'' \<or> key = ''intent'' \<or> key = ''state''
      then map_of anEmptyUser key
      else if key = ''__proto__'' then None
      else map_of defaults key)"
  by (auto simp: createEmptyUser_def lodash_defaults_def defaultsFrom_lookup
      resolvesToUndefined_def anEmptyUser_def intentObject_def split: option.splits)

theorem createEmptyUser_fills_absent_keys_witness:
  "map_of (createEmptyUser
      (Some [(''state'', JStr ''active''), (''id'', JNum 7), (''__proto__'', JNum 1)])) ''state''
     = Some (JStr ''none'') \<and>
   map_of (createEmptyUser
      (Some [(''state'', JStr ''active''), (''id'', JNum 7), (''__proto__'', JNum 1)])) ''id''
     = Some (JNum 7) \<and>
   map_of (createEmptyUser
      (Some [(''state'', JStr ''active''), (''id'', JNum 7), (''__proto__'', JNum 1)])) ''__proto__''
     = None"
  using createEmptyUser_fills_absent_keys
      [of "[(''state'', JStr ''active''), (''id'', JNum 7), (''__proto__'', JNum 1)]" "''state''"]
    createEmptyUser_fills_absent_keys
      [of "[(''state'', JStr ''active''), (''id'', JNum 7), (''__proto__'', JNum 1)]" "''id''"]
    createEmptyUser_fills_absent_keys
      [of "[(''state'', JStr ''active''), (''id'', JNum 7), (''__proto__'', JNum 1)]" "''__proto__''"]
  by (simp add: anEmptyUser_def)

text \<open>
  The statement as the specification has it fails: \<^verbatim>\<open>createEmptyUser({state:'active'})\<close>
  is the base record itself, with state \<^verbatim>\<open>'none'\<close>.
\<close>

theorem createEmptyUser_override_counterexample:
  "createEmptyUser (Some [(''state'', JStr ''active'')]) =
     [(''conversation'', JArr []), (''intent'', intentObject createEmptyIntent),
      (''state'', JStr ''none'')] \<and>
   createEmptyUser (Some [(''state'', JStr ''active'')]) \<noteq>
     [(''conversation'', JArr []), (''intent'', intentObject createEmptyIntent),
      (''state'', JStr ''active'')]"
  by (simp add: createEmptyUser_def defaults_defs anEmptyUser_def)

subsection \<open>C2: the walk over the skills\<close>




subsection \<open>C3: hyphens in a label\<close>

text \<open>
  C3 fails on the code: \<^verbatim>\<open>label.replace('-', ' ')\<close> replaces the first hyphen only.
  For the label \<^verbatim>\<open>new-york-city\<close> the action of the intent is \<^verbatim>\<open>new york-city\<close>,
  which still holds a hyphen.
\<close>

theorem hyphen_replaced_once:
  "baseBotTextNLP False demoStartCase hyphenClassifiers ''a flight to new york city'' =
     Inr (Some [\<lparr>action = Some ''new york-city'', topic = Some ''travel'',
                 details = Some [(''confidence'', JNum 0.9), (''locations'', JArr [])]\<rparr>]) \<and>
   CHR ''-'' \<in> set ''new york-city''"
  by (simp add: extractor_defs example_defs)

subsection \<open>C4: the confidence floor\<close>

text \<open>
  C4. With the logistic-regression classifier active, the extractor gives what sorting
  and mapping give on the collected classifications without those of value at most
  0.6; it returns \<^verbatim>\<open>null\<close> when every collected classification has value at most 0.6;
  and when it returns intents, there is one for each classification of value above
  0.6, each made from such a classification and carrying its value as confidence.
\<close>

theorem logistic_floor:
  assumes "collectClassifications cls text = Inr collected"
  shows "baseBotTextNLP True startCase cls text =
           Inr (rankClassifications False startCase (filter (\<lambda>c. cvalue c > 0.6) collected)) \<and>
         ((\<forall>c\<in>set collected. cvalue c \<le> 0.6) \<longrightarrow> baseBotTextNLP True startCase cls text = Inr None) \<and>
         (\<forall>produced. baseBotTextNLP True startCase cls text = Inr (Some produced) \<longrightarrow>
            length produced = length (filter (\<lambda>c. cvalue c > 0.6) collected) \<and>
            (\<forall>i\<in>set produced. \<exists>c\<in>set collected. cvalue c > 0.6 \<and>
               action i = Some (label c) \<and> topic i = Some (ctopic c) \<and>
               (\<exists>d. details i = Some d \<and> map_of d ''confidence'' = Some (JNum (cvalue c)))))"
proof -
  have r: "baseBotTextNLP True startCase cls text = Inr (rankClassifications True startCase collected)"
    using assms by (simp add: baseBotTextNLP_def)
  have a: "rankClassifications True startCase collected =
           rankClassifications False startCase (filter (\<lambda>c. cvalue c > 0.6) collected)"
    by (simp add: rankClassifications_def)
  have b: "rankClassifications True startCase collected = None"
    if "\<forall>c\<in>set collected. cvalue c \<le> 0.6"
  proof -
    have "survivors True collected = []"
      using that unfolding survivors_True_filter filter_empty_conv by (simp add: not_less)
    then show ?thesis by (simp add: rankClassifications_eq)
  qed
  have c: "length produced = length (filter (\<lambda>c. cvalue c > 0.6) collected) \<and>
            (\<forall>i\<in>set produced. \<exists>c\<in>set collected. cvalue c > 0.6 \<and>
               action i = Some (label c) \<and> topic i = Some (ctopic c) \<and>
               (\<exists>d. details i = Some d \<and> map_of d ''confidence'' = Some (JNum (cvalue c))))"
    if "rankClassifications True startCase collected = Some produced" for produced
    using rankClassifications_produced [OF that]
    unfolding survivors_True_filter [symmetric] by (metis survivors_True_iff)
  show ?thesis
    unfolding r using a b c by blast
qed

theorem logistic_floor_witness:
  "collectClassifications lowClassifiers ''a week in paris'' =
     Inr [\<lparr>label = ''paris'', ctopic = ''locations'', cvalue = 0.5\<rparr>] \<and>
   baseBotTextNLP True demoStartCase lowClassifiers ''a week in paris'' = Inr None \<and>
   baseBotTextNLP True demoStartCase demoClassifiers ''rain in new york'' =
     Inr (Some [\<lparr>action = Some ''new york'', topic = Some ''locations'',
                 details = Some [(''confidence'', JNum 0.9), (''locations'', JArr [JStr ''New York''])]\<rparr>,
                \<lparr>action = Some ''rain forecast'', topic = Some ''weather'',
                 details = Some [(''confidence'', JNum 0.7), (''locations'', JArr [JStr ''New York''])]\<rparr>])"
proof -
  have low: "baseBotTextNLP True demoStartCase lowClassifiers ''a week in paris'' = Inr None"
    using logistic_floor [where startCase = demoStartCase, OF low_collected [of "''a week in paris''"],
        THEN conjunct2, THEN conjunct1]
    by simp
  have "baseBotTextNLP True demoStartCase demoClassifiers ''rain in new york'' =
          Inr (rankClassifications False demoStartCase
                 (filter (\<lambda>c. cvalue c > 0.6)
                    [\<lparr>label = ''rain forecast'', ctopic = ''weather'', cvalue = 0.7\<rparr>,
                     \<lparr>label = ''new york'', ctopic = ''locations'', cvalue = 0.9\<rparr>,
                     \<lparr>label = ''paris'', ctopic = ''locations'', cvalue = 0.5\<rparr>]))"
    using logistic_floor [where startCase = demoStartCase, OF demo_collected [of "''rain in new york''"],
        THEN conjunct1] .
  then show ?thesis
    using low low_collected by (simp add: extractor_defs example_defs)
qed


subsection \<open>C5: the first candidate wins\<close>

text \<open>
  C5. For every list of candidates that is not empty once the \<^verbatim>\<open>null\<close> entries are
  dropped, the default reducer returns the first of them: its action and its topic,
  whatever the confidence values in the details of the candidates are; only the details
  are replaced, by the merged ones.
\<close>

theorem defaultReducer_first_wins:
  assumes "lodash_compact candidates \<noteq> []"
  shows "action (defaultReducer candidates) = action (hd (lodash_compact candidates)) \<and>
         topic (defaultReducer candidates) = topic (hd (lodash_compact candidates)) \<and>
         defaultReducer candidates =
           (hd (lodash_compact candidates))\<lparr>details := details (defaultReducer candidates)\<rparr> \<and>
         details (defaultReducer candidates) \<noteq> None"
  using assms by (cases "lodash_compact candidates") (simp_all add: defaultReducer_def)

theorem defaultReducer_first_wins_witness:
  "lodash_compact [None, Some demoGreeting, Some demoPlace] \<noteq> [] \<and>
   action (defaultReducer [None, Some demoGreeting, Some demoPlace]) = Some ''greet'' \<and>
   topic (defaultReducer [None, Some demoGreeting, Some demoPlace]) = Some ''smalltalk''"
  using defaultReducer_first_wins [of "[None, Some demoGreeting, Some demoPlace]"]
  by (simp add: demoGreeting_def)

subsection \<open>C6: the merge of the details\<close>

text \<open>
  C6, as the code has it. For every list of candidates that is not empty, the merged
  details keep every key of the winner whose value is not \<^verbatim>\<open>undefined\<close>, with that
  value; a key that is \<^verbatim>\<open>undefined\<close> on the winner, or missing from it and not
  \<^verbatim>\<open>__proto__\<close>, takes the value of the earliest lower-ranked candidate in which it
  has a value other than \<^verbatim>\<open>undefined\<close>; a key that neither the winner nor any
  other candidate has is not in the merged details; and the key \<^verbatim>\<open>__proto__\<close> is
  never added to a winner that does not have it.
\<close>

theorem defaultReducer_merge:
  assumes "lodash_compact candidates = winner # others"
  shows "\<exists>merged. details (defaultReducer candidates) = Some merged \<and>
    (\<forall>k v. map_of (detailsObject winner) k = Some v \<and> v \<noteq> JUndefined \<longrightarrow> map_of merged k = Some v) \<and>
    (\<forall>k v pre c post.
        others = pre @ c # post \<and> resolvesToUndefined (detailsObject winner) k \<and>
        (\<forall>p\<in>set pre. givesNoValue (detailsObject p) k) \<and>
        map_of (detailsObject c) k = Some v \<and> v \<noteq> JUndefined
        \<longrightarrow> map_of merged k = Some v) \<and>
    (\<forall>k. map_of (detailsObject winner) k = None \<and>
         (\<forall>c\<in>set others. map_of (detailsObject c) k = None)
         \<longrightarrow> map_of merged k = None) \<and>
    (map_of (detailsObject winner) ''__proto__'' = None \<longrightarrow> map_of merged ''__proto__'' = None)"
proof -
  let ?merged = "lodash_defaults (detailsObject winner) (map details others)"
  have d: "details (defaultReducer candidates) = Some ?merged"
    using assms by (simp add: defaultReducer_def lodash_defaults_apply_eq)
  have keep: "map_of ?merged k = Some v"
    if "map_of (detailsObject winner) k = Some v" "v \<noteq> JUndefined" for k v
    using that by (rule lodash_defaults_keeps)
  have first: "map_of ?merged k = Some v"
    if h: "others = pre @ c # post" "resolvesToUndefined (detailsObject winner) k"
      "\<forall>p\<in>set pre. givesNoValue (detailsObject p) k"
      "map_of (detailsObject c) k = Some v" "v \<noteq> JUndefined" for k v pre c post
  proof -
    obtain s where s: "details c = Some s" "map_of s k = Some v"
      using h(4) by (cases "details c") (simp_all add: detailsObject_def)
    have p: "\<forall>p\<in>set (map details pre). sourceGivesNoValue p k"
      using h(3) by (auto simp: sourceGivesNoValue_def detailsObject_def
          givesNoValue_def split: option.splits)
    have "map details others = map details pre @ Some s # map details post"
      using h(1) s(1) by simp
    then show ?thesis
      using lodash_defaults_first_seen [OF h(2) p s(2) h(5)] by simp
  qed
  have nonew: "map_of ?merged k = None"
    if h: "map_of (detailsObject winner) k = None"
      "\<forall>c\<in>set others. map_of (detailsObject c) k = None" for k
  proof (rule lodash_defaults_no_new_key [OF h(1)])
    show "\<forall>src\<in>set (map details others). case src of None \<Rightarrow> True | Some s \<Rightarrow> map_of s k = None"
      using h(2) by (auto simp: detailsObject_def split: option.splits)
  qed
  have proto: "map_of ?merged ''__proto__'' = None"
    if "map_of (detailsObject winner) ''__proto__'' = None"
    using that by (rule lodash_defaults_proto)
  have k: "\<forall>k v. map_of (detailsObject winner) k = Some v \<and> v \<noteq> JUndefined
             \<longrightarrow> map_of ?merged k = Some v"
    using keep by blast
  have f: "\<forall>k v pre c post.
        others = pre @ c # post \<and> resolvesToUndefined (detailsObject winner) k \<and>
        (\<forall>p\<in>set pre. givesNoValue (detailsObject p) k) \<and>
        map_of (detailsObject c) k = Some v \<and> v \<noteq> JUndefined
        \<longrightarrow> map_of ?merged k = Some v"
    using first by blast
  have n: "\<forall>k. map_of (detailsObject winner) k = None \<and>
         (\<forall>c\<in>set others. map_of (detailsObject c) k = None)
         \<longrightarrow> map_of ?merged k = None"
    using nonew by blast
  have p: "map_of (detailsObject winner) ''__proto__'' = None \<longrightarrow> map_of ?merged ''__proto__'' = None"
    using proto by blast
  show ?thesis
    by (rule exI [of _ ?merged]) (intro conjI d k f n p)
qed

theorem defaultReducer_merge_witness:
  "lodash_compact [Some demoGreeting, None, Some demoPlace, Some demoNote, Some demoParsed]
     = demoGreeting # [demoPlace, demoNote, demoParsed] \<and>
   (\<exists>merged.
      details (defaultReducer [Some demoGreeting, None, Some demoPlace, Some demoNote, Some demoParsed])
        = Some merged \<and>
      map_of merged ''confidence'' = Some (JNum 0.7) \<and>
      map_of merged ''locations'' = Some (JArr [JStr ''New York'']) \<and>
      map_of merged ''note'' = Some (JStr ''x'') \<and>
      map_of merged ''y'' = Some (JStr ''z'') \<and>
      map_of merged ''other'' = None \<and>
      map_of merged ''__proto__'' = None)"
proof -
  have h: "lodash_compact [Some demoGreeting, None, Some demoPlace, Some demoNote, Some demoParsed]
             = demoGreeting # [demoPlace, demoNote, demoParsed]"
    by simp
  from defaultReducer_merge [OF h] obtain merged where m0:
    "details (defaultReducer [Some demoGreeting, None, Some demoPlace, Some demoNote, Some demoParsed])
       = Some merged \<and>
    (\<forall>k v. map_of (detailsObject demoGreeting) k = Some v \<and> v \<noteq> JUndefined \<longrightarrow> map_of merged k = Some v) \<and>
    (\<forall>k v pre c post.
        [demoPlace, demoNote, demoParsed] = pre @ c # post \<and>
        resolvesToUndefined (detailsObject demoGreeting) k \<and>
        (\<forall>p\<in>set pre. givesNoValue (detailsObject p) k) \<and>
        map_of (detailsObject c) k = Some v \<and> v \<noteq> JUndefined
        \<longrightarrow> map_of merged k = Some v) \<and>
    (\<forall>k. map_of (detailsObject demoGreeting) k = None \<and>
         (\<forall>c\<in>set [demoPlace, demoNote, demoParsed]. map_of (detailsObject c) k = None)
         \<longrightarrow> map_of merged k = None) \<and>
    (map_of (detailsObject demoGreeting) ''__proto__'' = None \<longrightarrow> map_of merged ''__proto__'' = None)"
    ..
  note m = m0 [THEN conjunct1] m0 [THEN conjunct2, THEN conjunct1]
    m0 [THEN conjunct2, THEN conjunct2, THEN conjunct1]
    m0 [THEN conjunct2, THEN conjunct2, THEN conjunct2, THEN conjunct1]
    m0 [THEN conjunct2, THEN conjunct2, THEN conjunct2, THEN conjunct2]
  have a: "map_of merged ''confidence'' = Some (JNum 0.7)"
    using m(2) [rule_format, of "''confidence''" "JNum 0.7"]
    by (simp add: detailsObject_def demoGreeting_def)
  have b: "map_of merged ''locations'' = Some (JArr [JStr ''New York''])"
    using m(3) [rule_format, of "[]" demoPlace "[demoNote, demoParsed]" "''locations''"
        "JArr [JStr ''New York'']"]
    by (simp add: detailsObject_def resolvesToUndefined_def demoGreeting_def demoPlace_def)
  have c: "map_of merged ''note'' = Some (JStr ''x'')"
    using m(3) [rule_format, of "[demoPlace]" demoNote "[demoParsed]" "''note''" "JStr ''x''"]
    by (simp add: detailsObject_def resolvesToUndefined_def givesNoValue_def
        demoGreeting_def demoPlace_def demoNote_def)
  have y: "map_of merged ''y'' = Some (JStr ''z'')"
    using m(3) [rule_format, of "[demoPlace, demoNote]" demoParsed "[]" "''y''" "JStr ''z''"]
    by (simp add: detailsObject_def resolvesToUndefined_def givesNoValue_def
        demoGreeting_def demoPlace_def demoNote_def demoParsed_def)
  have d: "map_of merged ''other'' = None"
    using m(4) [rule_format, of "''other''"]
    by (simp add: detailsObject_def demoGreeting_def demoPlace_def demoNote_def demoParsed_def)
  have e: "map_of merged ''__proto__'' = None"
    using m(5) by (simp add: detailsObject_def demoGreeting_def)
  show ?thesis
    by (intro conjI exI [of _ merged] h m(1) a b c y d e)
qed

text \<open>
  The statement as the specification has it fails where a key of the winner holds
  \<^verbatim>\<open>undefined\<close>: the key \<^verbatim>\<open>note\<close> is present on the winning intent and the merge
  overwrites it with the value of the second candidate.
\<close>

theorem defaultReducer_merge_undefined_counterexample:
  "details demoGreeting = Some [(''confidence'', JNum 0.7), (''note'', JUndefined)] \<and>
   details (defaultReducer [Some demoGreeting, Some demoNote]) =
     Some [(''confidence'', JNum 0.7), (''note'', JStr ''x''),
           (''locations'', JArr [JStr ''Paris''])]"
  by (simp add: defaultReducer_def defaults_defs demoGreeting_def demoNote_def)

subsection \<open>C7: the locations of a round\<close>

text \<open>
  C7, as the code has it. Every intent of one extraction round carries the same
  \<^verbatim>\<open>details.locations\<close>, whatever its own topic: the title-cased labels, the empty
  ones left out, of the classifications of topic \<^verbatim>\<open>locations\<close> that are left after
  the confidence floor, in the order of the sorted list, which holds the surviving
  classifications by descending value and those of equal value in their collected order.
\<close>

theorem locations_broadcast:
  assumes "collectClassifications cls text = Inr collected"
    and "baseBotTextNLP isLR startCase cls text = Inr (Some produced)"
  shows "\<exists>sortedList.
           mset sortedList = mset (survivors isLR collected) \<and>
           sorted_wrt (\<lambda>a b. cvalue a \<ge> cvalue b) sortedList \<and>
           (\<forall>v. filter (\<lambda>c. cvalue c = v) sortedList
                 = filter (\<lambda>c. cvalue c = v) (survivors isLR collected)) \<and>
           (\<forall>i\<in>set produced. \<exists>d. details i = Some d \<and>
              map_of d ''locations'' =
                Some (JArr (map JStr
                  (filter (\<lambda>s. s \<noteq> [])
                     (map (\<lambda>c. startCase (label c))
                        (filter (\<lambda>c. ctopic c = ''locations'') sortedList))))))"
proof -
  let ?sorted = "orderBy_desc cvalue (survivors isLR collected)"
  have "rankClassifications isLR startCase collected = Some produced"
    using assms by (simp add: baseBotTextNLP_def)
  then have p: "produced = map (toIntent (locationsOf startCase ?sorted)) ?sorted"
    unfolding rankClassifications_eq by (simp split: if_splits)
  have "\<exists>d. details i = Some d \<and>
              map_of d ''locations'' = Some (JArr (map JStr (locationsOf startCase ?sorted)))"
    if "i \<in> set produced" for i
  proof -
    from that p obtain c where "i = toIntent (locationsOf startCase ?sorted) c"
      by auto
    then show ?thesis
      using toIntent_fields(3) [of "locationsOf startCase ?sorted" c] by blast
  qed
  then have "\<forall>i\<in>set produced. \<exists>d. details i = Some d \<and>
              map_of d ''locations'' =
                Some (JArr (map JStr
                  (filter (\<lambda>s. s \<noteq> [])
                     (map (\<lambda>c. startCase (label c))
                        (filter (\<lambda>c. ctopic c = ''locations'') ?sorted)))))"
    unfolding locationsOf_eq by blast
  moreover have "mset ?sorted = mset (survivors isLR collected)"
    by (rule mset_orderBy_desc)
  moreover have "sorted_wrt (\<lambda>a b. cvalue a \<ge> cvalue b) ?sorted"
    by (rule orderBy_desc_descending)
  moreover have "\<forall>v. filter (\<lambda>c. cvalue c = v) ?sorted
                      = filter (\<lambda>c. cvalue c = v) (survivors isLR collected)"
    by (simp add: orderBy_desc_stable)
  ultimately show ?thesis
    by blast
qed

theorem locations_broadcast_witness:
  "collectClassifications demoClassifiers ''rain in new york'' = Inr demoCollected \<and>
   baseBotTextNLP False demoStartCase demoClassifiers ''rain in new york'' = Inr (Some demoProduced) \<and>
   (\<exists>sortedList.
      mset sortedList = mset (survivors False demoCollected) \<and>
      sorted_wrt (\<lambda>a b. cvalue a \<ge> cvalue b) sortedList \<and>
      (\<forall>v. filter (\<lambda>c. cvalue c = v) sortedList
            = filter (\<lambda>c. cvalue c = v) (survivors False demoCollected)) \<and>
      (\<forall>i\<in>set demoProduced. \<exists>d. details i = Some d \<and>
         map_of d ''locations'' =
           Some (JArr (map JStr
             (filter (\<lambda>s. s \<noteq> [])
                (map (\<lambda>c. demoStartCase (label c))
                   (filter (\<lambda>c. ctopic c = ''locations'') sortedList)))))))"
proof -
  have c: "collectClassifications demoClassifiers ''rain in new york'' = Inr demoCollected"
    by (simp add: demo_collected demoCollected_def)
  have p: "baseBotTextNLP False demoStartCase demoClassifiers ''rain in new york'' = Inr (Some demoProduced)"
    by (simp add: extractor_defs example_defs demoProduced_def)
  show ?thesis
    using c p locations_broadcast [OF c p] by (intro conjI)
qed

text \<open>
  The statement as the specification has it fails under the confidence floor: the
  classification \<^verbatim>\<open>paris\<close> has the topic \<^verbatim>\<open>locations\<close> and the value 0.5, and its
  label is in the locations of no intent, while the labels of all classifications of
  that topic are \<^verbatim>\<open>New York\<close> and \<^verbatim>\<open>Paris\<close>. It fails without the floor as well
  for a label whose title-cased form is the empty string, which \<^verbatim>\<open>_.compact\<close> drops:
  the list of the title-cased labels has one entry and the locations have none.
\<close>

theorem locations_floor_counterexample:
  "collectClassifications demoClassifiers ''rain in new york'' = Inr demoCollected \<and>
   baseBotTextNLP True demoStartCase demoClassifiers ''rain in new york'' =
     Inr (Some [\<lparr>action = Some ''new york'', topic = Some ''locations'',
                 details = Some [(''confidence'', JNum 0.9), (''locations'', JArr [JStr ''New York''])]\<rparr>,
                \<lparr>action = Some ''rain forecast'', topic = Some ''weather'',
                 details = Some [(''confidence'', JNum 0.7), (''locations'', JArr [JStr ''New York''])]\<rparr>]) \<and>
   map (\<lambda>c. demoStartCase (label c))
     (filter (\<lambda>c. ctopic c = ''locations'') (orderBy_desc cvalue demoCollected))
     = [''New York'', ''Paris''] \<and>
   collectClassifications separatorClassifiers ''rain in new york'' =
     Inr [\<lparr>label = '' '', ctopic = ''locations'', cvalue = 0.9\<rparr>] \<and>
   baseBotTextNLP False demoStartCase separatorClassifiers ''rain in new york'' =
     Inr (Some [\<lparr>action = Some '' '', topic = Some ''locations'',
                 details = Some [(''confidence'', JNum 0.9), (''locations'', JArr [])]\<rparr>]) \<and>
   map (\<lambda>c. demoStartCase (label c))
     (filter (\<lambda>c. ctopic c = ''locations'')
        [\<lparr>label = '' '', ctopic = ''locations'', cvalue = 0.9\<rparr>])
     = [[]]"
  by (simp add: extractor_defs example_defs demoCollected_def)

subsection \<open>C8: a request without candidates\<close>

text \<open>
  C8, as the code has it. When the default reducer is in place, every intent function
  is fulfilled and they hand back nothing but \<^verbatim>\<open>null\<close>, and no call of a skill made
  during the walk throws, returns a promise that rejects or never settles, or changes
  \<^verbatim>\<open>user.intent\<close> (by replacing it or by writing into it), then \<^verbatim>\<open>processText\<close>
  resolves, and the intent of the user it resolves with is the unknown intent, of
  action \<^verbatim>\<open>'none'\<close> and topic \<^verbatim>\<open>null\<close>.
\<close>

theorem no_match_gives_unknownIntent:
  fixes chatbot :: "('a User_scheme) ChatBot"
  assumes "reducer chatbot = defaultReducerFunction"
    and "map (\<lambda>intentFunction. intentFunction (classifiers chatbot) text
            (user\<lparr>conversation :=
               Some ((case conversation user of None \<Rightarrow> [] | Some c \<Rightarrow> c) @ [text])\<rparr>))
           (intents chatbot) = map Fulfilled results"
    and "lodash_compact (flatten results) = []"
    and "\<forall>(before, outcome, after)\<in>set (skillCalls (skills chatbot) 0
             (user\<lparr>conversation :=
                Some ((case conversation user of None \<Rightarrow> [] | Some c \<Rightarrow> c) @ [text]),
                intent := unknownIntent\<rparr>)).
           settlesNormally outcome \<and> intent after = intent before"
  shows "\<exists>user'. processText firstInTime chatbot user text = Fulfilled user' \<and>
           action (intent user') = Some ''none'' \<and> topic (intent user') = None"
  using processText_no_match [OF assms, of firstInTime] by (auto simp: unknownIntent_def)

theorem no_match_gives_unknownIntent_witness:
  "reducer (quietBot [skillWhenVip, skillDeclines]) = defaultReducerFunction \<and>
   lodash_compact (flatten [ENull]) = [] \<and>
   map (\<lambda>(before, outcome, after). outcome)
     (skillCalls (skills (quietBot [skillWhenVip, skillDeclines])) 0
        (demoUser\<lparr>conversation := Some [''hello''], intent := unknownIntent\<rparr>))
     = [Inr Null, Inr Null] \<and>
   (\<exists>user'. processText hd (quietBot [skillWhenVip, skillDeclines]) demoUser ''hello'' = Fulfilled user' \<and>
      action (intent user') = Some ''none'' \<and> topic (intent user') = None)"
proof -
  have r: "reducer (quietBot [skillWhenVip, skillDeclines]) = defaultReducerFunction"
    by (simp add: quietBot_def)
  have c: "lodash_compact (flatten [ENull]) = []"
    by (simp add: flatten_def)
  have s: "\<forall>(before, outcome, after)\<in>set (skillCalls (skills (quietBot [skillWhenVip, skillDeclines])) 0
             (demoUser\<lparr>conversation :=
                Some ((case conversation demoUser of None \<Rightarrow> [] | Some c \<Rightarrow> c) @ [''hello'']),
                intent := unknownIntent\<rparr>)).
           settlesNormally outcome \<and> intent after = intent before"
    by (simp add: skillCalls.simps quietBot_def demoUser_def settlesNormally_def
        skillWhenVip_def skillDeclines_def skillAnswers_def)
  have k: "map (\<lambda>(before, outcome, after). outcome)
     (skillCalls (skills (quietBot [skillWhenVip, skillDeclines])) 0
        (demoUser\<lparr>conversation := Some [''hello''], intent := unknownIntent\<rparr>))
     = [Inr Null, Inr Null]"
    by (simp add: skillCalls.simps quietBot_def demoUser_def skillWhenVip_def skillDeclines_def)
  show ?thesis
    using r c k no_match_gives_unknownIntent [OF r quietBot_extraction c s, of hd]
    by (intro conjI)
qed

text \<open>
  The statement as the specification has it fails when a skill is registered that
  changes the intent, fails, or returns a promise that never settles: in the three
  runs the reducer is the default one and it receives no candidate.
\<close>

theorem no_match_skill_counterexample:
  "reducer (quietBot [skillGreets]) = defaultReducerFunction \<and>
   reducer (quietBot [skillFails]) = defaultReducerFunction \<and>
   reducer (quietBot [skillHangs]) = defaultReducerFunction \<and>
   lodash_compact (flatten [ENull]) = [] \<and>
   processText hd (quietBot [skillGreets]) demoUser ''hello'' =
     Fulfilled \<lparr>conversation = Some [''hello''], state = JNull,
          intent = \<lparr>action = Some ''greet'', topic = Some ''smalltalk'', details = Some []\<rparr>\<rparr> \<and>
   processText hd (quietBot [skillFails]) demoUser ''hello'' = Failed (Failure ''skill failed'') \<and>
   processText hd (quietBot [skillHangs]) demoUser ''hello'' = NeverSettles"
proof -
  have a: "processText hd (quietBot [skillGreets]) demoUser ''hello'' =
     Fulfilled \<lparr>conversation = Some [''hello''], state = JNull,
          intent = \<lparr>action = Some ''greet'', topic = Some ''smalltalk'', details = Some []\<rparr>\<rparr>"
    by (simp add: processText_def promiseMap_def Let_def flatten_def defaultReducerFunction_def
        defaultReducer_def unknownIntent_def extractor_defs example_defs skillGreets_def)
  have b: "processText hd (quietBot [skillFails]) demoUser ''hello'' = Failed (Failure ''skill failed'')"
    by (simp add: processText_def promiseMap_def Let_def flatten_def defaultReducerFunction_def
        defaultReducer_def unknownIntent_def extractor_defs example_defs skillFails_def)
  have c: "processText hd (quietBot [skillHangs]) demoUser ''hello'' = NeverSettles"
    by (simp add: processText_def promiseMap_def Let_def flatten_def defaultReducerFunction_def
        defaultReducer_def unknownIntent_def extractor_defs example_defs skillHangs_def)
  show ?thesis
    using a b c by (simp add: quietBot_def flatten_def)
qed

subsection \<open>C9: retraining\<close>

text \<open>
  C9. \<^verbatim>\<open>retrainClassifiers\<close> leaves the intent functions, the skills, the reducer
  and the debug flag of the bot as they were, whether \<^verbatim>\<open>GenerateClassifier\<close> succeeds
  or throws; when it succeeds, the classifiers are the only field that changes.
\<close>

theorem retrainClassifiers_frame:
  "intents (snd (retrainClassifiers GenerateClassifier dirname classifierFiles chatbot)) = intents chatbot \<and>
   skills (snd (retrainClassifiers GenerateClassifier dirname classifierFiles chatbot)) = skills chatbot \<and>
   reducer (snd (retrainClassifiers GenerateClassifier dirname classifierFiles chatbot)) = reducer chatbot \<and>
   debugOn (snd (retrainClassifiers GenerateClassifier dirname classifierFiles chatbot)) = debugOn chatbot \<and>
   (\<forall>allClassifiers.
      GenerateClassifier (classifierFiles @ defaultClassifierDirectories dirname) = Inr allClassifiers
      \<longrightarrow> retrainClassifiers GenerateClassifier dirname classifierFiles chatbot
            = (Inr (), chatbot\<lparr>classifiers := allClassifiers\<rparr>))"
  by (simp add: retrainClassifiers_def split: sum.splits)

theorem retrainClassifiers_frame_witness:
  "retrainClassifiers (\<lambda>sources :: unit source list. Inr lowClassifiers) ''/srv/bot/lib'' []
     (quietBot [skillDeclines])
     = (Inr (), (quietBot [skillDeclines])\<lparr>classifiers := lowClassifiers\<rparr>) \<and>
   skills (snd (retrainClassifiers (\<lambda>sources :: unit source list. Inr lowClassifiers) ''/srv/bot/lib'' []
     (quietBot [skillDeclines]))) = [skillDeclines]"
  using retrainClassifiers_frame [of "\<lambda>sources :: unit source list. Inr lowClassifiers"
      "''/srv/bot/lib''" "[]" "quietBot [skillDeclines]"]
  by (simp add: quietBot_def)

subsection \<open>C10: the unknown intent has no details\<close>

text \<open>
  C10, as the code has it. The unknown intent that the default reducer returns for a
  list of candidates that is empty once the \<^verbatim>\<open>null\<close> entries are dropped has no
  \<^verbatim>\<open>details\<close> field, while the intent of \<^verbatim>\<open>createEmptyIntent\<close> has the empty object
  as details; and when the default reducer is in place, every intent function is
  fulfilled and they hand back nothing but \<^verbatim>\<open>null\<close>, and no call of a skill made
  during the walk throws, returns a promise that rejects or never settles, or changes
  \<^verbatim>\<open>user.intent\<close> (by replacing it or by writing into it, its details included), the
  user that \<^verbatim>\<open>processText\<close> resolves with has an intent without details.
\<close>

theorem unknownIntent_without_details:
  fixes chatbot :: "('a User_scheme) ChatBot"
  assumes "reducer chatbot = defaultReducerFunction"
    and "map (\<lambda>intentFunction. intentFunction (classifiers chatbot) text
            (user\<lparr>conversation :=
               Some ((case conversation user of None \<Rightarrow> [] | Some c \<Rightarrow> c) @ [text])\<rparr>))
           (intents chatbot) = map Fulfilled results"
    and "lodash_compact (flatten results) = []"
    and "\<forall>(before, outcome, after)\<in>set (skillCalls (skills chatbot) 0
             (user\<lparr>conversation :=
                Some ((case conversation user of None \<Rightarrow> [] | Some c \<Rightarrow> c) @ [text]),
                intent := unknownIntent\<rparr>)).
           settlesNormally outcome \<and> intent after = intent before"
  shows "(\<forall>candidates. lodash_compact candidates = [] \<longrightarrow> details (defaultReducer candidates) = None) \<and>
         details createEmptyIntent = Some [] \<and>
         (\<exists>user'. processText firstInTime chatbot user text = Fulfilled user' \<and>
            details (intent user') = None)"
proof -
  have "details (defaultReducer candidates) = None" if "lodash_compact candidates = []" for candidates
    using that by (simp add: defaultReducer_def unknownIntent_def)
  moreover have "details createEmptyIntent = Some []"
    by (simp add: createEmptyIntent_def)
  moreover have "\<exists>user'. processText firstInTime chatbot user text = Fulfilled user' \<and>
                   details (intent user') = None"
    using processText_no_match [OF assms, of firstInTime] by (auto simp: unknownIntent_def)
  ultimately show ?thesis
    by blast
qed

theorem unknownIntent_without_details_witness:
  "reducer (quietBot [skillDeclines, skillAnswers]) = defaultReducerFunction \<and>
   map (\<lambda>(before, outcome, after). outcome)
     (skillCalls (skills (quietBot [skillDeclines, skillAnswers])) 0
        (demoUser\<lparr>conversation := Some [''hello''], intent := unknownIntent\<rparr>))
     = [Inr Null, Inr Resolved] \<and>
   details (defaultReducer [None, None]) = None \<and>
   details createEmptyIntent = Some [] \<and>
   (\<exists>user'. processText hd (quietBot [skillDeclines, skillAnswers]) demoUser ''hello'' = Fulfilled user' \<and>
      details (intent user') = None)"
proof -
  have r: "reducer (quietBot [skillDeclines, skillAnswers]) = defaultReducerFunction"
    by (simp add: quietBot_def)
  have c: "lodash_compact (flatten [ENull]) = []"
    by (simp add: flatten_def)
  have s: "\<forall>(before, outcome, after)\<in>set (skillCalls (skills (quietBot [skillDeclines, skillAnswers])) 0
             (demoUser\<lparr>conversation :=
                Some ((case conversation demoUser of None \<Rightarrow> [] | Some c \<Rightarrow> c) @ [''hello'']),
                intent := unknownIntent\<rparr>)).
           settlesNormally outcome \<and> intent after = intent before"
    by (simp add: skillCalls.simps quietBot_def demoUser_def settlesNormally_def
        skillWhenVip_def skillDeclines_def skillAnswers_def)
  have k: "map (\<lambda>(before, outcome, after). outcome)
     (skillCalls (skills (quietBot [skillDeclines, skillAnswers])) 0
        (demoUser\<lparr>conversation := Some [''hello''], intent := unknownIntent\<rparr>))
     = [Inr Null, Inr Resolved]"
    by (simp add: skillCalls.simps quietBot_def demoUser_def skillDeclines_def skillAnswers_def)
  note t = unknownIntent_without_details [OF r quietBot_extraction c s, of hd]
  have "details (defaultReducer [None, None]) = None"
    using t [THEN conjunct1, rule_format, of "[None, None]"] by simp
  then show ?thesis
    using r k t by blast
qed

text \<open>
  The last part of the statement as the specification has it fails when a skill writes
  the details of the intent: the reducer is the default one, it receives no candidate,
  and the intent of the user after the request has details.
\<close>

theorem unknownIntent_details_counterexample:
  "reducer (quietBot [skillAnnotates]) = defaultReducerFunction \<and>
   lodash_compact (flatten [ENull]) = [] \<and>
   processText hd (quietBot [skillAnnotates]) demoUser ''hello'' =
     Fulfilled \<lparr>conversation = Some [''hello''], state = JNull,
          intent = \<lparr>action = Some ''none'', topic = None,
                    details = Some [(''handled'', JBool True)]\<rparr>\<rparr>"
proof -
  have "processText hd (quietBot [skillAnnotates]) demoUser ''hello'' =
     Fulfilled \<lparr>conversation = Some [''hello''], state = JNull,
          intent = \<lparr>action = Some ''none'', topic = None,
                    details = Some [(''handled'', JBool True)]\<rparr>\<rparr>"
    by (simp add: processText_def promiseMap_def Let_def flatten_def defaultReducerFunction_def
        defaultReducer_def unknownIntent_def extractor_defs example_defs skillAnnotates_def)
  then show ?thesis
    by (simp add: quietBot_def flatten_def)
qed

end
